theory Spec2Isabelle
  imports Complex_Main
begin

section \<open>Data model\<close>

text \<open>
  The types of \<^verbatim>\<open>types.ts\<close>. A JavaScript number that carries a price is a \<open>real\<close>:
  the platform only stores, copies and compares prices with \<^verbatim>\<open>null\<close>. A number that
  carries a time is an \<open>int\<close> of milliseconds since the epoch.
\<close>

datatype DataSource = chainlink

record Payload =
  p_symbol :: string
  p_timestamp :: int
  p_value :: real

record PriceUpdate =
  topic :: string
  msg_type :: string
  msg_timestamp :: int
  payload :: Payload

record ConnectionStatus =
  connected :: bool
  source :: "DataSource option"
  lastUpdate :: "int option"
  error :: "string option"

text \<open>
  \<^verbatim>\<open>EventDisplayData\<close> is declared by the event manager; the platform reads the
  fields \<^verbatim>\<open>slug\<close>, \<^verbatim>\<open>status\<close> and \<^verbatim>\<open>endDate\<close> (here the milliseconds that
  \<^verbatim>\<open>new Date(endDate).getTime()\<close> yields); the other fields are only printed.
\<close>

datatype EventStatus = Active | Expired | Upcoming

record EventDisplayData =
  slug :: string
  status :: EventStatus
  endDate :: int

text \<open>
  What a handler reads from outside the platform while it runs: the list that
  \<^verbatim>\<open>eventManager.getEvents()\<close> returns and the clock \<^verbatim>\<open>new Date()\<close>. A handler runs to
  completion without yielding, and both are taken as one snapshot for the whole
  handler; two handlers may see different snapshots.
\<close>

record env =
  events :: "EventDisplayData list"
  now :: int

text \<open>
  What the presentation layer and the catalog get to see is recorded in a trace, in the
  order of the source's statements: a first-time write into \<^verbatim>\<open>eventPriceToBeat\<close> (by
  \<^verbatim>\<open>capturePriceForActiveEvent\<close>, or by \<^verbatim>\<open>renderActiveEvent\<close> itself), a first-time
  write into \<^verbatim>\<open>eventLastPrice\<close> (by one of the two adjacent-pair loops, or by the
  expiry branch of \<^verbatim>\<open>updateCountdown\<close>), a call of \<^verbatim>\<open>renderActiveEvent()\<close>, a call of
  \<^verbatim>\<open>renderEventsTable()\<close>, and a call of \<^verbatim>\<open>loadEvents()\<close>, which asks the catalog
  for a refresh.
\<close>

datatype effect =
    CapturedPriceToBeat string
  | CapturedPriceToBeatOnRender string
  | CapturedLastPrice string
  | CapturedLastPriceOnExpiry string
  | RenderActiveEvent
  | RenderEventsTable
  | RefreshRequested

text \<open>
  The fields of \<^verbatim>\<open>StreamingPlatform\<close>, followed by the part of the browser that the
  platform acts on: the interval timers that are live (\<^verbatim>\<open>setInterval\<close> adds one,
  \<^verbatim>\<open>clearInterval\<close> removes one), the next timer id, the presence of the elements
  \<^verbatim>\<open>#active-event-display\<close> and \<^verbatim>\<open>#events-table-body\<close>, and the text of
  \<^verbatim>\<open>#event-countdown\<close> (\<open>None\<close> when the element is not in the document).
\<close>

record platform =
  currentPrice :: "real option"
  priceHistory :: "(int \<times> real) list"
  currentStatus :: ConnectionStatus
  countdownInterval :: "nat option"
  eventPriceToBeat :: "string \<rightharpoonup> real"
  eventLastPrice :: "string \<rightharpoonup> real"
  liveIntervals :: "nat set"
  nextIntervalId :: nat
  activeEventDisplay :: bool
  eventsTableBody :: bool
  eventCountdown :: "string option"
  trace :: "effect list"

definition maxHistorySize :: nat where
  "maxHistorySize = 100"

definition disconnectedStatus :: ConnectionStatus where
  "disconnectedStatus = \<lparr>connected = False, source = None, lastUpdate = None, error = None\<rparr>"

definition initialPlatform :: platform where
  "initialPlatform =
     \<lparr>currentPrice = None, priceHistory = [], currentStatus = disconnectedStatus,
      countdownInterval = None, eventPriceToBeat = Map.empty, eventLastPrice = Map.empty,
      liveIntervals = {}, nextIntervalId = 1,
      activeEventDisplay = False, eventsTableBody = False, eventCountdown = None,
      trace = []\<rparr>"

definition emit :: "effect \<Rightarrow> platform \<Rightarrow> platform" where
  "emit e s = s\<lparr>trace := trace s @ [e]\<rparr>"

section \<open>Array helpers\<close>

text \<open>\<^verbatim>\<open>Array.prototype.findIndex\<close>: the first index that satisfies the test, or \<open>-1\<close>.\<close>

fun findIndex :: "('a \<Rightarrow> bool) \<Rightarrow> 'a list \<Rightarrow> int" where
  "findIndex P [] = -1"
| "findIndex P (x # xs) =
     (if P x then 0 else (let i = findIndex P xs in if i < 0 then -1 else i + 1))"

text \<open>\<^verbatim>\<open>xs[i]\<close>: \<^verbatim>\<open>undefined\<close> (here \<open>None\<close>) outside the array.\<close>

definition elemAt :: "'a list \<Rightarrow> int \<Rightarrow> 'a option" where
  "elemAt xs i = (if 0 \<le> i \<and> i < int (length xs) then Some (xs ! nat i) else None)"

definition isActive :: "EventDisplayData \<Rightarrow> bool" where
  "isActive e = (status e = Active)"

section \<open>Countdown text\<close>

definition digit :: "nat \<Rightarrow> char" where
  "digit d = ''0123456789'' ! d"

function toString :: "nat \<Rightarrow> string" where
  "toString n = (if n < 10 then [digit n] else toString (n div 10) @ [digit (n mod 10)])"
  by pat_completeness auto
termination
  by (relation "measure id") auto

definition padStart :: "nat \<Rightarrow> char \<Rightarrow> string \<Rightarrow> string" where
  "padStart n c str = replicate (n - length str) c @ str"

definition formatCountdown :: "int \<Rightarrow> string" where
  "formatCountdown seconds =
     (if seconds \<le> 0 then ''00:00:00''
      else
        let hours = seconds div 3600;
            minutes = (seconds mod 3600) div 60;
            secs = seconds mod 60
        in padStart 2 (CHR ''0'') (toString (nat hours)) @ '':''
           @ padStart 2 (CHR ''0'') (toString (nat minutes)) @ '':''
           @ padStart 2 (CHR ''0'') (toString (nat secs)))"

section \<open>The methods of the platform\<close>

definition stopCountdown :: "platform \<Rightarrow> platform" where
  "stopCountdown s =
     (case countdownInterval s of
        None \<Rightarrow> s
      | Some i \<Rightarrow> s\<lparr>liveIntervals := liveIntervals s - {i}, countdownInterval := None\<rparr>)"

text \<open>
  \<^verbatim>\<open>loadEvents()\<close> is asynchronous: the call asks the event manager for the catalog
  and returns; what follows the \<^verbatim>\<open>await\<close> runs later, as \<open>loadEventsResolved\<close>.
\<close>

definition loadEvents :: "platform \<Rightarrow> platform" where
  "loadEvents s = emit RefreshRequested s"

text \<open>\<^verbatim>\<open>Math.max(0, Math.floor((endDate.getTime() - now.getTime()) / 1000))\<close>.\<close>

definition timeLeftOf :: "env \<Rightarrow> EventDisplayData \<Rightarrow> int" where
  "timeLeftOf e activeEvent = max 0 ((endDate activeEvent - now e) div 1000)"

text \<open>
  The block of \<^verbatim>\<open>updateCountdown\<close> under \<^verbatim>\<open>if (this.currentPrice !== null)\<close>: the event
  after the active one gets the current price as its last price, unless it has one.
\<close>

definition expiryCapture :: "env \<Rightarrow> platform \<Rightarrow> platform" where
  "expiryCapture e s =
     (case currentPrice s of
        None \<Rightarrow> s
      | Some p \<Rightarrow>
          (case find isActive (events e) of
             None \<Rightarrow> s
           | Some activeEvent \<Rightarrow>
               (let activeIndex = findIndex isActive (events e) in
                case elemAt (events e) (activeIndex + 1) of
                  None \<Rightarrow> s
                | Some nextEvent \<Rightarrow>
                    if eventLastPrice s (slug nextEvent) = None
                    then emit (CapturedLastPriceOnExpiry (slug nextEvent))
                           (s\<lparr>eventLastPrice := (eventLastPrice s)(slug nextEvent \<mapsto> p)\<rparr>)
                    else s)))"

definition updateCountdown :: "env \<Rightarrow> platform \<Rightarrow> platform" where
  "updateCountdown e s =
     (case find isActive (events e) of
        None \<Rightarrow> stopCountdown s
      | Some activeEvent \<Rightarrow>
          (case eventCountdown s of
             None \<Rightarrow> stopCountdown s
           | Some old \<Rightarrow>
               (let timeLeft = timeLeftOf e activeEvent;
                    s1 = s\<lparr>eventCountdown := Some (formatCountdown timeLeft)\<rparr>
                in if timeLeft = 0
                   then loadEvents (stopCountdown (expiryCapture e s1))
                   else s1)))"

definition startCountdown :: "env \<Rightarrow> platform \<Rightarrow> platform" where
  "startCountdown e s =
     (let s1 = stopCountdown s;
          i = nextIntervalId s1;
          s2 = s1\<lparr>liveIntervals := insert i (liveIntervals s1),
                  nextIntervalId := i + 1,
                  countdownInterval := Some i\<rparr>
      in updateCountdown e s2)"

definition renderActiveEvent :: "env \<Rightarrow> platform \<Rightarrow> platform" where
  "renderActiveEvent e s0 =
     (let s = emit RenderActiveEvent s0 in
      if \<not> activeEventDisplay s then s
      else
        case find isActive (events e) of
          None \<Rightarrow> (stopCountdown s)\<lparr>eventCountdown := None\<rparr>
        | Some activeEvent \<Rightarrow>
            (let s1 = (case eventPriceToBeat s (slug activeEvent) of
                         Some priceToBeat \<Rightarrow> s
                       | None \<Rightarrow>
                           (case currentPrice s of
                              None \<Rightarrow> s
                            | Some p \<Rightarrow>
                                emit (CapturedPriceToBeatOnRender (slug activeEvent))
                                  (s\<lparr>eventPriceToBeat :=
                                       (eventPriceToBeat s)(slug activeEvent \<mapsto> p)\<rparr>)));
                 s2 = s1\<lparr>eventCountdown := Some ''--:--:--''\<rparr>
             in startCountdown e s2))"

definition capturePriceForActiveEvent :: "env \<Rightarrow> platform \<Rightarrow> platform" where
  "capturePriceForActiveEvent e s =
     (case currentPrice s of
        None \<Rightarrow> s
      | Some p \<Rightarrow>
          (case find isActive (events e) of
             None \<Rightarrow> s
           | Some activeEvent \<Rightarrow>
               if eventPriceToBeat s (slug activeEvent) = None
               then renderActiveEvent e
                      (emit (CapturedPriceToBeat (slug activeEvent))
                         (s\<lparr>eventPriceToBeat := (eventPriceToBeat s)(slug activeEvent \<mapsto> p)\<rparr>))
               else s))"

definition renderEventsTable :: "env \<Rightarrow> platform \<Rightarrow> platform" where
  "renderEventsTable e s0 =
     (let s = emit RenderEventsTable s0 in
      if \<not> eventsTableBody s then s
      else renderActiveEvent e (capturePriceForActiveEvent e s))"

text \<open>
  The \<^verbatim>\<open>forEach\<close> of \<^verbatim>\<open>capturePriceForExpiredEvent\<close>: every index above 0 looks at its
  predecessor, so the loop walks the adjacent pairs from the left. \<open>p\<close> is
  \<^verbatim>\<open>this.currentPrice\<close>, which nothing called from the loop assigns.
\<close>

fun expiredLoop :: "env \<Rightarrow> real \<Rightarrow> EventDisplayData list \<Rightarrow> platform \<Rightarrow> platform" where
  "expiredLoop e p (previousEvent # event # rest) s =
     expiredLoop e p (event # rest)
       (if status previousEvent = Expired \<and> eventLastPrice s (slug event) = None
        then renderEventsTable e
               (emit (CapturedLastPrice (slug event))
                  (s\<lparr>eventLastPrice := (eventLastPrice s)(slug event \<mapsto> p)\<rparr>))
        else s)"
| "expiredLoop e p [event] s = s"
| "expiredLoop e p [] s = s"

definition capturePriceForExpiredEvent :: "env \<Rightarrow> platform \<Rightarrow> platform" where
  "capturePriceForExpiredEvent e s =
     (case currentPrice s of
        None \<Rightarrow> s
      | Some p \<Rightarrow> expiredLoop e p (events e) s)"

text \<open>The \<^verbatim>\<open>forEach\<close> of \<^verbatim>\<open>updateLastPrices\<close>: the same walk, with no render.\<close>

fun lastPricesLoop :: "real \<Rightarrow> EventDisplayData list \<Rightarrow> platform \<Rightarrow> platform" where
  "lastPricesLoop p (previousEvent # event # rest) s =
     lastPricesLoop p (event # rest)
       (if status previousEvent = Expired \<and> eventLastPrice s (slug event) = None
        then emit (CapturedLastPrice (slug event))
               (s\<lparr>eventLastPrice := (eventLastPrice s)(slug event \<mapsto> p)\<rparr>)
        else s)"
| "lastPricesLoop p [event] s = s"
| "lastPricesLoop p [] s = s"

definition updateLastPrices :: "env \<Rightarrow> platform \<Rightarrow> platform" where
  "updateLastPrices e s =
     (case currentPrice s of
        None \<Rightarrow> s
      | Some p \<Rightarrow> lastPricesLoop p (events e) s)"

definition handlePriceUpdate :: "env \<Rightarrow> PriceUpdate \<Rightarrow> platform \<Rightarrow> platform" where
  "handlePriceUpdate e update s =
     (let s1 = s\<lparr>currentPrice := Some (p_value (payload update))\<rparr>;
          s2 = s1\<lparr>priceHistory :=
                    priceHistory s1 @ [(p_timestamp (payload update), p_value (payload update))]\<rparr>;
          s3 = (if length (priceHistory s2) > maxHistorySize
                then s2\<lparr>priceHistory := tl (priceHistory s2)\<rparr> else s2);
          s4 = capturePriceForActiveEvent e s3
      in capturePriceForExpiredEvent e s4)"

definition handleStatusChange :: "ConnectionStatus \<Rightarrow> platform \<Rightarrow> platform" where
  "handleStatusChange st s = s\<lparr>currentStatus := st\<rparr>"

text \<open>
  The click handler of \<^verbatim>\<open>#disconnect\<close>. \<^verbatim>\<open>wsClient.disconnect()\<close> acts on the socket
  client; a status that the client reports through its callback during that call is
  overwritten by the assignment that follows. \<^verbatim>\<open>updateUI()\<close> only writes text.
\<close>

definition disconnectClick :: "platform \<Rightarrow> platform" where
  "disconnectClick s = s\<lparr>currentStatus := disconnectedStatus\<rparr>"

text \<open>
  The rest of \<^verbatim>\<open>loadEvents\<close>, run when the event manager's promise settles: after a
  success the \<^verbatim>\<open>try\<close> block goes on; after a failure the \<^verbatim>\<open>catch\<close> block renders when
  \<^verbatim>\<open>getNext15MinIntervals(10)\<close> (of \<^verbatim>\<open>event-utils\<close>) has \<open>timestamps > 0\<close> entries.
\<close>

definition loadEventsResolved :: "env \<Rightarrow> bool \<Rightarrow> nat \<Rightarrow> platform \<Rightarrow> platform" where
  "loadEventsResolved e ok timestamps s =
     (if ok then renderEventsTable e (updateLastPrices e s)
      else if timestamps > 0 then renderEventsTable e (updateLastPrices e s)
      else s)"

text \<open>
  \<^verbatim>\<open>render()\<close> writes the page into \<^verbatim>\<open>#app\<close> when that element exists: the two
  containers appear, the active-event section without a countdown element.
\<close>

definition render :: "bool \<Rightarrow> platform \<Rightarrow> platform" where
  "render app s =
     (if \<not> app then s
      else s\<lparr>activeEventDisplay := True, eventsTableBody := True, eventCountdown := None\<rparr>)"

definition initialize :: "bool \<Rightarrow> platform \<Rightarrow> platform" where
  "initialize app s = loadEvents (render app s)"

section \<open>The platform as a machine\<close>

text \<open>
  Everything the platform reacts to: a tick or a status change from the socket client,
  the two buttons, a firing of the interval timer with a given id (a cleared timer does
  not fire), the event manager's update callback, the settling of a pending
  \<^verbatim>\<open>loadEvents\<close>, and \<^verbatim>\<open>initialize()\<close>.
\<close>

datatype input =
    PriceTick PriceUpdate
  | StatusChange ConnectionStatus
  | ConnectClick
  | DisconnectClick
  | CountdownTick nat
  | EventsUpdated
  | LoadEventsResolved bool nat
  | Initialize bool

fun step :: "platform \<Rightarrow> env \<times> input \<Rightarrow> platform" where
  "step s (e, PriceTick update) = handlePriceUpdate e update s"
| "step s (e, StatusChange st) = handleStatusChange st s"
| "step s (e, ConnectClick) = s"
| "step s (e, DisconnectClick) = disconnectClick s"
| "step s (e, CountdownTick i) = (if i \<in> liveIntervals s then updateCountdown e s else s)"
| "step s (e, EventsUpdated) = renderEventsTable e s"
| "step s (e, LoadEventsResolved ok timestamps) = loadEventsResolved e ok timestamps s"
| "step s (e, Initialize app) = initialize app s"

definition run :: "platform \<Rightarrow> (env \<times> input) list \<Rightarrow> platform" where
  "run s ins = foldl step s ins"

section \<open>Event status\<close>

text \<open>
  The event manager (\<^verbatim>\<open>event-manager.ts\<close>), which derives the status of an event, is
  not among the sources; this section follows the specification. An event descriptor
  has a slug, a start time and an end time.
\<close>

record EventDescriptor =
  d_slug :: string
  startTime :: int
  endTime :: int

text \<open>
  Modelled from the spec: the status derivation of the missing event manager.
  \<^verbatim>\<open>now < startTime\<close> gives \<open>Upcoming\<close>, \<^verbatim>\<open>startTime <= now < endTime\<close> gives \<open>Active\<close>,
  \<^verbatim>\<open>now >= endTime\<close> gives \<open>Expired\<close>.
\<close>

definition deriveStatus :: "int \<Rightarrow> EventDescriptor \<Rightarrow> EventStatus" where
  "deriveStatus t d =
     (if t < startTime d then Upcoming
      else if t < endTime d then Active
      else Expired)"

text \<open>
  Modelled from the spec: events are contiguous, non-overlapping 15-minute slots. Every
  slot ends 15 minutes after it starts, and the next slot starts where the previous
  one ends.
\<close>

definition slotLength :: int where
  "slotLength = 15 * 60 * 1000"

fun contiguousSlots :: "EventDescriptor list \<Rightarrow> bool" where
  "contiguousSlots [] = True"
| "contiguousSlots [d] = (endTime d = startTime d + slotLength)"
| "contiguousSlots (d # d' # ds) =
     (endTime d = startTime d + slotLength \<and> startTime d' = endTime d \<and> contiguousSlots (d' # ds))"

text \<open>Modelled from the spec: the statuses of the ordered event list at one instant.\<close>

definition statuses :: "int \<Rightarrow> EventDescriptor list \<Rightarrow> EventStatus list" where
  "statuses t ds = map (deriveStatus t) ds"

section \<open>Predicates on states and traces\<close>

text \<open>An input is a price tick.\<close>

definition isPriceTick :: "input \<Rightarrow> bool" where
  "isPriceTick i = (case i of PriceTick u \<Rightarrow> True | _ \<Rightarrow> False)"

text \<open>A non-empty history ends with the tick that set the current price.\<close>

definition historyOk :: "platform \<Rightarrow> bool" where
  "historyOk s =
     (priceHistory s \<noteq> [] \<longrightarrow> currentPrice s = Some (snd (last (priceHistory s))))"

text \<open>The live interval timers are exactly the one the platform holds a handle for, if any.\<close>

definition timersOk :: "platform \<Rightarrow> bool" where
  "timersOk s = (liveIntervals s = (case countdownInterval s of None \<Rightarrow> {} | Some i \<Rightarrow> {i}))"

text \<open>Every entry of \<open>m'\<close> is an entry of \<open>m\<close> or holds the price \<open>p\<close>.\<close>

definition capturedFrom :: "real \<Rightarrow> (string \<rightharpoonup> real) \<Rightarrow> (string \<rightharpoonup> real) \<Rightarrow> bool" where
  "capturedFrom p m m' = (\<forall>k v. m' k = Some v \<longrightarrow> m k = Some v \<or> v = p)"

text \<open>The effects that a handler added to the trace.\<close>

definition newEffects :: "platform \<Rightarrow> platform \<Rightarrow> effect list" where
  "newEffects s s' = drop (length (trace s)) (trace s')"





section \<open>Sample inputs\<close>

definition ev :: "string \<Rightarrow> EventStatus \<Rightarrow> int \<Rightarrow> EventDisplayData" where
  "ev k st t = \<lparr>slug = k, status = st, endDate = t\<rparr>"

definition tick :: "int \<Rightarrow> real \<Rightarrow> PriceUpdate" where
  "tick t v =
     \<lparr>topic = ''crypto_prices_chainlink'', msg_type = ''update'', msg_timestamp = t,
      payload = \<lparr>p_symbol = ''btc/usd'', p_timestamp = t, p_value = v\<rparr>\<rparr>"

definition envActive :: env where
  "envActive = \<lparr>events = [ev ''e1'' Active 1000000, ev ''e2'' Upcoming 1900000], now = 520000\<rparr>"

definition envGap :: env where
  "envGap =
     \<lparr>events = [ev ''e1'' Expired 900000, ev ''e2'' Expired 1800000, ev ''e3'' Active 2700000],
      now = 2000000\<rparr>"

text \<open>
  The last second of the slot \<open>e1\<close>, which ends at 1000000: the countdown timer fires at
  999100, and the refresh that it forces has settled at 999400.
\<close>

definition envLast :: env where
  "envLast = \<lparr>events = [ev ''e1'' Active 1000000, ev ''e2'' Upcoming 1900000], now = 999100\<rparr>"

definition envLast2 :: env where
  "envLast2 = \<lparr>events = [ev ''e1'' Active 1000000, ev ''e2'' Upcoming 1900000], now = 999400\<rparr>"

definition envGapLast :: env where
  "envGapLast =
     \<lparr>events = [ev ''e1'' Expired 900000, ev ''e2'' Expired 1800000, ev ''e3'' Active 2700000],
      now = 2699500\<rparr>"

definition envEnd :: env where
  "envEnd = \<lparr>events = [ev ''e1'' Active 1000000, ev ''e2'' Upcoming 1900000], now = 1000000\<rparr>"

text \<open>The page is rendered, and a first tick has arrived while \<open>e1\<close> is active.\<close>

definition ready :: platform where
  "ready = handlePriceUpdate envActive (tick 1 65000) (initialize True initialPlatform)"



definition slot :: "string \<Rightarrow> int \<Rightarrow> EventDescriptor" where
  "slot k t = \<lparr>d_slug = k, startTime = t, endTime = t + slotLength\<rparr>"

section \<open>Frame and monotonicity lemmas\<close>

subsection \<open>Frame: the price fields\<close>

lemma emit_fields [simp]:
  "currentPrice (emit x s) = currentPrice s"
  "priceHistory (emit x s) = priceHistory s"
  "currentStatus (emit x s) = currentStatus s"
  "countdownInterval (emit x s) = countdownInterval s"
  "eventPriceToBeat (emit x s) = eventPriceToBeat s"
  "eventLastPrice (emit x s) = eventLastPrice s"
  "liveIntervals (emit x s) = liveIntervals s"
  "nextIntervalId (emit x s) = nextIntervalId s"
  "activeEventDisplay (emit x s) = activeEventDisplay s"
  "eventsTableBody (emit x s) = eventsTableBody s"
  "eventCountdown (emit x s) = eventCountdown s"
  "trace (emit x s) = trace s @ [x]"
  by (simp_all add: emit_def)

lemma stopCountdown_price [simp]:
  "currentPrice (stopCountdown s) = currentPrice s"
  "priceHistory (stopCountdown s) = priceHistory s"
  by (simp_all add: stopCountdown_def split: option.split)

lemma loadEvents_price [simp]:
  "currentPrice (loadEvents s) = currentPrice s"
  "priceHistory (loadEvents s) = priceHistory s"
  by (simp_all add: loadEvents_def)

lemma expiryCapture_price [simp]:
  "currentPrice (expiryCapture e s) = currentPrice s"
  "priceHistory (expiryCapture e s) = priceHistory s"
  by (simp_all add: expiryCapture_def Let_def split: option.split)

lemma updateCountdown_price [simp]:
  "currentPrice (updateCountdown e s) = currentPrice s"
  "priceHistory (updateCountdown e s) = priceHistory s"
  by (simp_all add: updateCountdown_def Let_def split: option.split)

lemma startCountdown_price [simp]:
  "currentPrice (startCountdown e s) = currentPrice s"
  "priceHistory (startCountdown e s) = priceHistory s"
  by (simp_all add: startCountdown_def Let_def)

lemma renderActiveEvent_price [simp]:
  "currentPrice (renderActiveEvent e s) = currentPrice s"
  "priceHistory (renderActiveEvent e s) = priceHistory s"
  by (simp_all add: renderActiveEvent_def Let_def split: option.split)

lemma capturePriceForActiveEvent_price [simp]:
  "currentPrice (capturePriceForActiveEvent e s) = currentPrice s"
  "priceHistory (capturePriceForActiveEvent e s) = priceHistory s"
  by (simp_all add: capturePriceForActiveEvent_def split: option.split)

lemma renderEventsTable_price [simp]:
  "currentPrice (renderEventsTable e s) = currentPrice s"
  "priceHistory (renderEventsTable e s) = priceHistory s"
  by (simp_all add: renderEventsTable_def Let_def)

lemma expiredLoop_price [simp]:
  "currentPrice (expiredLoop e p evs s) = currentPrice s"
  "priceHistory (expiredLoop e p evs s) = priceHistory s"
  by (induction e p evs s rule: expiredLoop.induct) simp_all

lemma capturePriceForExpiredEvent_price [simp]:
  "currentPrice (capturePriceForExpiredEvent e s) = currentPrice s"
  "priceHistory (capturePriceForExpiredEvent e s) = priceHistory s"
  by (simp_all add: capturePriceForExpiredEvent_def split: option.split)

lemma lastPricesLoop_price [simp]:
  "currentPrice (lastPricesLoop p evs s) = currentPrice s"
  "priceHistory (lastPricesLoop p evs s) = priceHistory s"
  by (induction p evs s rule: lastPricesLoop.induct) simp_all

lemma updateLastPrices_price [simp]:
  "currentPrice (updateLastPrices e s) = currentPrice s"
  "priceHistory (updateLastPrices e s) = priceHistory s"
  by (simp_all add: updateLastPrices_def split: option.split)

lemma loadEventsResolved_price [simp]:
  "currentPrice (loadEventsResolved e ok n s) = currentPrice s"
  "priceHistory (loadEventsResolved e ok n s) = priceHistory s"
  by (simp_all add: loadEventsResolved_def)

lemma initialize_price [simp]:
  "currentPrice (initialize app s) = currentPrice s"
  "priceHistory (initialize app s) = priceHistory s"
  by (simp_all add: initialize_def render_def)

subsection \<open>The capture maps only grow\<close>

lemma map_le_new_key: "m' \<subseteq>\<^sub>m m \<Longrightarrow> m k = None \<Longrightarrow> m' \<subseteq>\<^sub>m m(k \<mapsto> v)"
  by (auto simp: map_le_def dom_def)

lemma stopCountdown_maps [simp]:
  "eventPriceToBeat (stopCountdown s) = eventPriceToBeat s"
  "eventLastPrice (stopCountdown s) = eventLastPrice s"
  by (simp_all add: stopCountdown_def split: option.split)

lemma loadEvents_maps [simp]:
  "eventPriceToBeat (loadEvents s) = eventPriceToBeat s"
  "eventLastPrice (loadEvents s) = eventLastPrice s"
  by (simp_all add: loadEvents_def)

lemma expiryCapture_priceToBeat [simp]:
  "eventPriceToBeat (expiryCapture e s) = eventPriceToBeat s"
  by (simp add: expiryCapture_def Let_def split: option.split)

lemma expiryCapture_lastPrice_le:
  "m \<subseteq>\<^sub>m eventLastPrice s \<Longrightarrow> m \<subseteq>\<^sub>m eventLastPrice (expiryCapture e s)"
  by (simp add: expiryCapture_def Let_def map_le_new_key split: option.split)

lemma updateCountdown_priceToBeat [simp]:
  "eventPriceToBeat (updateCountdown e s) = eventPriceToBeat s"
  by (simp add: updateCountdown_def Let_def split: option.split)

lemma updateCountdown_lastPrice_le:
  "m \<subseteq>\<^sub>m eventLastPrice s \<Longrightarrow> m \<subseteq>\<^sub>m eventLastPrice (updateCountdown e s)"
  by (simp add: updateCountdown_def Let_def expiryCapture_lastPrice_le split: option.split)

lemma startCountdown_priceToBeat [simp]:
  "eventPriceToBeat (startCountdown e s) = eventPriceToBeat s"
  by (simp add: startCountdown_def Let_def)

lemma startCountdown_lastPrice_le:
  "m \<subseteq>\<^sub>m eventLastPrice s \<Longrightarrow> m \<subseteq>\<^sub>m eventLastPrice (startCountdown e s)"
  by (simp add: startCountdown_def Let_def updateCountdown_lastPrice_le)

lemma renderActiveEvent_priceToBeat_le:
  "m \<subseteq>\<^sub>m eventPriceToBeat s \<Longrightarrow> m \<subseteq>\<^sub>m eventPriceToBeat (renderActiveEvent e s)"
  by (simp add: renderActiveEvent_def Let_def map_le_new_key split: option.split)

lemma renderActiveEvent_lastPrice_le:
  "m \<subseteq>\<^sub>m eventLastPrice s \<Longrightarrow> m \<subseteq>\<^sub>m eventLastPrice (renderActiveEvent e s)"
  by (simp add: renderActiveEvent_def Let_def startCountdown_lastPrice_le split: option.split)

lemma capturePriceForActiveEvent_priceToBeat_le:
  "m \<subseteq>\<^sub>m eventPriceToBeat s \<Longrightarrow> m \<subseteq>\<^sub>m eventPriceToBeat (capturePriceForActiveEvent e s)"
  by (simp add: capturePriceForActiveEvent_def renderActiveEvent_priceToBeat_le map_le_new_key
      split: option.split)

lemma capturePriceForActiveEvent_lastPrice_le:
  "m \<subseteq>\<^sub>m eventLastPrice s \<Longrightarrow> m \<subseteq>\<^sub>m eventLastPrice (capturePriceForActiveEvent e s)"
  by (simp add: capturePriceForActiveEvent_def renderActiveEvent_lastPrice_le split: option.split)

lemma renderEventsTable_priceToBeat_le:
  "m \<subseteq>\<^sub>m eventPriceToBeat s \<Longrightarrow> m \<subseteq>\<^sub>m eventPriceToBeat (renderEventsTable e s)"
  by (simp add: renderEventsTable_def Let_def renderActiveEvent_priceToBeat_le
      capturePriceForActiveEvent_priceToBeat_le)

lemma renderEventsTable_lastPrice_le:
  "m \<subseteq>\<^sub>m eventLastPrice s \<Longrightarrow> m \<subseteq>\<^sub>m eventLastPrice (renderEventsTable e s)"
  by (simp add: renderEventsTable_def Let_def renderActiveEvent_lastPrice_le
      capturePriceForActiveEvent_lastPrice_le)

lemma expiredLoop_priceToBeat_le:
  "m \<subseteq>\<^sub>m eventPriceToBeat s \<Longrightarrow> m \<subseteq>\<^sub>m eventPriceToBeat (expiredLoop e p evs s)"
  by (induction e p evs s rule: expiredLoop.induct)
     (simp_all add: renderEventsTable_priceToBeat_le)

lemma expiredLoop_lastPrice_le:
  "m \<subseteq>\<^sub>m eventLastPrice s \<Longrightarrow> m \<subseteq>\<^sub>m eventLastPrice (expiredLoop e p evs s)"
  by (induction e p evs s rule: expiredLoop.induct)
     (simp_all add: renderEventsTable_lastPrice_le map_le_new_key)

lemma capturePriceForExpiredEvent_priceToBeat_le:
  "m \<subseteq>\<^sub>m eventPriceToBeat s \<Longrightarrow> m \<subseteq>\<^sub>m eventPriceToBeat (capturePriceForExpiredEvent e s)"
  by (simp add: capturePriceForExpiredEvent_def expiredLoop_priceToBeat_le split: option.split)

lemma capturePriceForExpiredEvent_lastPrice_le:
  "m \<subseteq>\<^sub>m eventLastPrice s \<Longrightarrow> m \<subseteq>\<^sub>m eventLastPrice (capturePriceForExpiredEvent e s)"
  by (simp add: capturePriceForExpiredEvent_def expiredLoop_lastPrice_le split: option.split)

lemma lastPricesLoop_priceToBeat [simp]:
  "eventPriceToBeat (lastPricesLoop p evs s) = eventPriceToBeat s"
  by (induction p evs s rule: lastPricesLoop.induct) simp_all

lemma lastPricesLoop_lastPrice_le:
  "m \<subseteq>\<^sub>m eventLastPrice s \<Longrightarrow> m \<subseteq>\<^sub>m eventLastPrice (lastPricesLoop p evs s)"
  by (induction p evs s rule: lastPricesLoop.induct) (simp_all add: map_le_new_key)

lemma updateLastPrices_priceToBeat [simp]:
  "eventPriceToBeat (updateLastPrices e s) = eventPriceToBeat s"
  by (simp add: updateLastPrices_def split: option.split)

lemma updateLastPrices_lastPrice_le:
  "m \<subseteq>\<^sub>m eventLastPrice s \<Longrightarrow> m \<subseteq>\<^sub>m eventLastPrice (updateLastPrices e s)"
  by (simp add: updateLastPrices_def lastPricesLoop_lastPrice_le split: option.split)

lemma handlePriceUpdate_priceToBeat_le:
  "m \<subseteq>\<^sub>m eventPriceToBeat s \<Longrightarrow> m \<subseteq>\<^sub>m eventPriceToBeat (handlePriceUpdate e u s)"
  by (simp add: handlePriceUpdate_def Let_def capturePriceForExpiredEvent_priceToBeat_le
      capturePriceForActiveEvent_priceToBeat_le)

lemma handlePriceUpdate_lastPrice_le:
  "m \<subseteq>\<^sub>m eventLastPrice s \<Longrightarrow> m \<subseteq>\<^sub>m eventLastPrice (handlePriceUpdate e u s)"
  by (simp add: handlePriceUpdate_def Let_def capturePriceForExpiredEvent_lastPrice_le
      capturePriceForActiveEvent_lastPrice_le)

lemma loadEventsResolved_priceToBeat_le:
  "m \<subseteq>\<^sub>m eventPriceToBeat s \<Longrightarrow> m \<subseteq>\<^sub>m eventPriceToBeat (loadEventsResolved e ok n s)"
  by (simp add: loadEventsResolved_def renderEventsTable_priceToBeat_le)

lemma loadEventsResolved_lastPrice_le:
  "m \<subseteq>\<^sub>m eventLastPrice s \<Longrightarrow> m \<subseteq>\<^sub>m eventLastPrice (loadEventsResolved e ok n s)"
  by (simp add: loadEventsResolved_def renderEventsTable_lastPrice_le updateLastPrices_lastPrice_le)

lemma step_priceToBeat_le:
  "m \<subseteq>\<^sub>m eventPriceToBeat s \<Longrightarrow> m \<subseteq>\<^sub>m eventPriceToBeat (step s (e, i))"
  by (cases i)
     (simp_all add: handlePriceUpdate_priceToBeat_le renderEventsTable_priceToBeat_le
        loadEventsResolved_priceToBeat_le handleStatusChange_def disconnectClick_def
        initialize_def render_def)

lemma step_lastPrice_le:
  "m \<subseteq>\<^sub>m eventLastPrice s \<Longrightarrow> m \<subseteq>\<^sub>m eventLastPrice (step s (e, i))"
  by (cases i)
     (simp_all add: handlePriceUpdate_lastPrice_le renderEventsTable_lastPrice_le
        loadEventsResolved_lastPrice_le updateCountdown_lastPrice_le handleStatusChange_def
        disconnectClick_def initialize_def render_def)

lemma run_priceToBeat_le:
  "m \<subseteq>\<^sub>m eventPriceToBeat s \<Longrightarrow> m \<subseteq>\<^sub>m eventPriceToBeat (run s ins)"
  unfolding run_def
  by (induction ins arbitrary: s) (auto simp: step_priceToBeat_le)

lemma run_lastPrice_le:
  "m \<subseteq>\<^sub>m eventLastPrice s \<Longrightarrow> m \<subseteq>\<^sub>m eventLastPrice (run s ins)"
  unfolding run_def
  by (induction ins arbitrary: s) (auto simp: step_lastPrice_le)

subsection \<open>No price, no capture\<close>

lemma expiryCapture_no_price [simp]:
  "currentPrice s = None \<Longrightarrow> eventLastPrice (expiryCapture e s) = eventLastPrice s"
  by (simp add: expiryCapture_def)

lemma updateCountdown_no_price [simp]:
  "currentPrice s = None \<Longrightarrow> eventLastPrice (updateCountdown e s) = eventLastPrice s"
  by (simp add: updateCountdown_def Let_def split: option.split)

lemma startCountdown_no_price [simp]:
  "currentPrice s = None \<Longrightarrow> eventLastPrice (startCountdown e s) = eventLastPrice s"
  by (simp add: startCountdown_def Let_def)

lemma renderActiveEvent_no_price [simp]:
  "currentPrice s = None \<Longrightarrow> eventPriceToBeat (renderActiveEvent e s) = eventPriceToBeat s"
  "currentPrice s = None \<Longrightarrow> eventLastPrice (renderActiveEvent e s) = eventLastPrice s"
  by (simp_all add: renderActiveEvent_def Let_def split: option.split)

lemma capturePriceForActiveEvent_no_price [simp]:
  "currentPrice s = None \<Longrightarrow> capturePriceForActiveEvent e s = s"
  by (simp add: capturePriceForActiveEvent_def)

lemma renderEventsTable_no_price [simp]:
  "currentPrice s = None \<Longrightarrow> eventPriceToBeat (renderEventsTable e s) = eventPriceToBeat s"
  "currentPrice s = None \<Longrightarrow> eventLastPrice (renderEventsTable e s) = eventLastPrice s"
  by (simp_all add: renderEventsTable_def Let_def)

lemma capturePriceForExpiredEvent_no_price [simp]:
  "currentPrice s = None \<Longrightarrow> capturePriceForExpiredEvent e s = s"
  by (simp add: capturePriceForExpiredEvent_def)

lemma updateLastPrices_no_price [simp]:
  "currentPrice s = None \<Longrightarrow> updateLastPrices e s = s"
  by (simp add: updateLastPrices_def)

lemma step_price_frame:
  "\<not> isPriceTick i \<Longrightarrow>
     currentPrice (step s (e, i)) = currentPrice s \<and> priceHistory (step s (e, i)) = priceHistory s"
  by (cases i) (simp_all add: isPriceTick_def handleStatusChange_def disconnectClick_def)

lemma step_no_price:
  "currentPrice s = None \<Longrightarrow> \<not> isPriceTick i \<Longrightarrow>
     eventPriceToBeat (step s (e, i)) = eventPriceToBeat s \<and>
     eventLastPrice (step s (e, i)) = eventLastPrice s"
  by (cases i)
     (simp_all add: isPriceTick_def handleStatusChange_def disconnectClick_def
        loadEventsResolved_def initialize_def render_def)

lemma run_no_price:
  "currentPrice s = None \<Longrightarrow> list_all (\<lambda>x. \<not> isPriceTick (snd x)) ins \<Longrightarrow>
     currentPrice (run s ins) = None \<and>
     eventPriceToBeat (run s ins) = eventPriceToBeat s \<and>
     eventLastPrice (run s ins) = eventLastPrice s"
proof (induction ins arbitrary: s)
  case Nil
  then show ?case by (simp add: run_def)
next
  case (Cons x ins)
  obtain e i where x: "x = (e, i)" by (cases x)
  from Cons.prems x have nt: "\<not> isPriceTick i" by simp
  have p: "currentPrice (step s (e, i)) = None"
    using step_price_frame[OF nt, of s e] Cons.prems(1) by simp
  have m: "eventPriceToBeat (step s (e, i)) = eventPriceToBeat s"
          "eventLastPrice (step s (e, i)) = eventLastPrice s"
    using step_no_price[OF Cons.prems(1) nt, of e] by simp_all
  have "list_all (\<lambda>x. \<not> isPriceTick (snd x)) ins" using Cons.prems(2) by simp
  from Cons.IH[OF p this] m x show ?case by (simp add: run_def)
qed

subsection \<open>The history and the current price\<close>

lemma handlePriceUpdate_price:
  "currentPrice (handlePriceUpdate e u s) = Some (p_value (payload u))"
  by (simp add: handlePriceUpdate_def Let_def)

lemma handlePriceUpdate_history:
  "priceHistory (handlePriceUpdate e u s) =
     (if length (priceHistory s) + 1 > maxHistorySize
      then tl (priceHistory s @ [(p_timestamp (payload u), p_value (payload u))])
      else priceHistory s @ [(p_timestamp (payload u), p_value (payload u))])"
  by (simp add: handlePriceUpdate_def Let_def)

lemma handlePriceUpdate_last:
  "priceHistory (handlePriceUpdate e u s) \<noteq> [] \<and>
   last (priceHistory (handlePriceUpdate e u s)) = (p_timestamp (payload u), p_value (payload u))"
proof (cases "priceHistory s")
  case Nil
  then show ?thesis by (simp add: handlePriceUpdate_history maxHistorySize_def)
next
  case (Cons a as)
  then show ?thesis by (simp add: handlePriceUpdate_history last_tl)
qed

lemma handlePriceUpdate_historyOk: "historyOk (handlePriceUpdate e u s)"
  by (simp add: historyOk_def handlePriceUpdate_last handlePriceUpdate_price)

lemma step_historyOk: "historyOk s \<Longrightarrow> historyOk (step s (e, i))"
proof (cases "isPriceTick i")
  case True
  then obtain u where "i = PriceTick u" by (cases i) (simp_all add: isPriceTick_def)
  then show ?thesis by (simp add: handlePriceUpdate_historyOk)
next
  case False
  assume "historyOk s"
  with step_price_frame[OF False, of s e] show ?thesis by (simp add: historyOk_def)
qed

lemma run_historyOk: "historyOk s \<Longrightarrow> historyOk (run s ins)"
  unfolding run_def by (induction ins arbitrary: s) (auto simp: step_historyOk)

lemma handlePriceUpdate_history_bound:
  "length (priceHistory s) \<le> maxHistorySize \<Longrightarrow>
   length (priceHistory (handlePriceUpdate e u s)) \<le> maxHistorySize"
  by (simp add: handlePriceUpdate_history)

subsection \<open>Timers\<close>

lemma timersOk_emit [simp]: "timersOk (emit x s) = timersOk s"
  by (simp add: timersOk_def)

lemma stopCountdown_timers:
  "timersOk s \<Longrightarrow> liveIntervals (stopCountdown s) = {} \<and> countdownInterval (stopCountdown s) = None"
  by (simp add: timersOk_def stopCountdown_def split: option.split)

lemma stopCountdown_timersOk: "timersOk s \<Longrightarrow> timersOk (stopCountdown s)"
  by (simp add: timersOk_def stopCountdown_timers)

lemma timersOk_update [simp]:
  "timersOk (s\<lparr>eventCountdown := c\<rparr>) = timersOk s"
  "timersOk (s\<lparr>eventLastPrice := m\<rparr>) = timersOk s"
  "timersOk (s\<lparr>eventPriceToBeat := m\<rparr>) = timersOk s"
  "timersOk (s\<lparr>currentPrice := p\<rparr>) = timersOk s"
  "timersOk (s\<lparr>priceHistory := h\<rparr>) = timersOk s"
  "timersOk (s\<lparr>currentStatus := st\<rparr>) = timersOk s"
  "timersOk (s\<lparr>activeEventDisplay := b\<rparr>) = timersOk s"
  "timersOk (s\<lparr>eventsTableBody := b\<rparr>) = timersOk s"
  by (simp_all add: timersOk_def)

lemma expiryCapture_timersOk [simp]: "timersOk (expiryCapture e s) = timersOk s"
  by (simp add: expiryCapture_def Let_def split: option.split)

lemma updateCountdown_timersOk: "timersOk s \<Longrightarrow> timersOk (updateCountdown e s)"
  by (simp add: updateCountdown_def Let_def loadEvents_def stopCountdown_timersOk
      split: option.split)

lemma startCountdown_timersOk: "timersOk s \<Longrightarrow> timersOk (startCountdown e s)"
proof -
  assume "timersOk s"
  then have "timersOk ((stopCountdown s)\<lparr>liveIntervals := insert i (liveIntervals (stopCountdown s)),
                  nextIntervalId := n, countdownInterval := Some i\<rparr>)" for i n
    using stopCountdown_timers[of s] by (simp add: timersOk_def)
  then show ?thesis
    by (simp add: startCountdown_def Let_def updateCountdown_timersOk)
qed

lemma renderActiveEvent_timersOk: "timersOk s \<Longrightarrow> timersOk (renderActiveEvent e s)"
  by (simp add: renderActiveEvent_def Let_def startCountdown_timersOk stopCountdown_timersOk
      split: option.split)

lemma capturePriceForActiveEvent_timersOk:
  "timersOk s \<Longrightarrow> timersOk (capturePriceForActiveEvent e s)"
  by (simp add: capturePriceForActiveEvent_def renderActiveEvent_timersOk split: option.split)

lemma renderEventsTable_timersOk: "timersOk s \<Longrightarrow> timersOk (renderEventsTable e s)"
  by (simp add: renderEventsTable_def Let_def renderActiveEvent_timersOk
      capturePriceForActiveEvent_timersOk)

lemma expiredLoop_timersOk: "timersOk s \<Longrightarrow> timersOk (expiredLoop e p evs s)"
  by (induction e p evs s rule: expiredLoop.induct) (simp_all add: renderEventsTable_timersOk)

lemma capturePriceForExpiredEvent_timersOk:
  "timersOk s \<Longrightarrow> timersOk (capturePriceForExpiredEvent e s)"
  by (simp add: capturePriceForExpiredEvent_def expiredLoop_timersOk split: option.split)

lemma lastPricesLoop_timersOk [simp]: "timersOk (lastPricesLoop p evs s) = timersOk s"
  by (induction p evs s rule: lastPricesLoop.induct) simp_all

lemma updateLastPrices_timersOk [simp]: "timersOk (updateLastPrices e s) = timersOk s"
  by (simp add: updateLastPrices_def split: option.split)

lemma handlePriceUpdate_timersOk: "timersOk s \<Longrightarrow> timersOk (handlePriceUpdate e u s)"
  by (simp add: handlePriceUpdate_def Let_def capturePriceForExpiredEvent_timersOk
      capturePriceForActiveEvent_timersOk)

lemma step_timersOk: "timersOk s \<Longrightarrow> timersOk (step s (e, i))"
  by (cases i)
     (simp_all add: handlePriceUpdate_timersOk handleStatusChange_def disconnectClick_def
        updateCountdown_timersOk renderEventsTable_timersOk loadEventsResolved_def
        initialize_def render_def loadEvents_def)

lemma run_timersOk: "timersOk s \<Longrightarrow> timersOk (run s ins)"
  unfolding run_def by (induction ins arbitrary: s) (auto simp: step_timersOk)

lemma initial_timersOk: "timersOk initialPlatform"
  by (simp add: timersOk_def initialPlatform_def)

lemma timersOk_card: "timersOk s \<Longrightarrow> card (liveIntervals s) \<le> 1"
  by (simp add: timersOk_def split: option.split)

lemma startCountdown_live:
  "timersOk s \<Longrightarrow> liveIntervals (startCountdown e s) \<subseteq> {nextIntervalId s}"
proof -
  assume ok: "timersOk s"
  have n: "nextIntervalId (stopCountdown s) = nextIntervalId s"
    by (simp add: stopCountdown_def split: option.split)
  have sub: "liveIntervals (updateCountdown e t) \<subseteq> liveIntervals t" for t
    by (auto simp: updateCountdown_def Let_def loadEvents_def stopCountdown_def expiryCapture_def
        split: option.split)
  show ?thesis
    unfolding startCountdown_def Let_def
    using sub[of "(stopCountdown s)\<lparr>liveIntervals := insert (nextIntervalId (stopCountdown s)) (liveIntervals (stopCountdown s)),
                  nextIntervalId := nextIntervalId (stopCountdown s) + 1,
                  countdownInterval := Some (nextIntervalId (stopCountdown s))\<rparr>"]
      stopCountdown_timers[OF ok] n by simp
qed

section \<open>Status order\<close>

lemma contiguous_tail: "contiguousSlots (d # ds) \<Longrightarrow> contiguousSlots ds"
  by (cases ds) auto

lemma contiguous_later_start:
  "contiguousSlots (d # ds) \<Longrightarrow> d' \<in> set ds \<Longrightarrow> endTime d \<le> startTime d'"
proof (induction ds arbitrary: d)
  case Nil
  then show ?case by simp
next
  case (Cons a ds)
  show ?case
  proof (cases "d' = a")
    case True
    with Cons.prems show ?thesis by simp
  next
    case False
    with Cons.prems have "d' \<in> set ds" by simp
    moreover from Cons.prems have "contiguousSlots (a # ds)" by simp
    ultimately have "endTime a \<le> startTime d'" by (rule Cons.IH[rotated])
    moreover from Cons.prems have "endTime d \<le> endTime a"
      by (cases ds) (auto simp: slotLength_def)
    ultimately show ?thesis by simp
  qed
qed

lemma upcoming_rest:
  assumes "contiguousSlots (d # ds)" "t < endTime d"
  shows "statuses t ds = replicate (length ds) Upcoming"
proof -
  have "\<forall>d' \<in> set ds. deriveStatus t d' = Upcoming"
    using contiguous_later_start[OF assms(1)] assms(2) by (fastforce simp: deriveStatus_def)
  then show ?thesis
    unfolding statuses_def by (simp add: map_replicate_const[symmetric] cong: map_cong)
qed

lemma statuses_shape:
  "contiguousSlots ds \<Longrightarrow>
     \<exists>a b c. b \<le> 1 \<and> statuses t ds = replicate a Expired @ replicate b Active @ replicate c Upcoming"
proof (induction ds)
  case Nil
  show ?case by (rule exI[of _ 0], rule exI[of _ 0], rule exI[of _ 0]) (simp add: statuses_def)
next
  case (Cons d ds)
  show ?case
  proof (cases "t < endTime d")
    case True
    have rest: "statuses t ds = replicate (length ds) Upcoming"
      using upcoming_rest[OF Cons.prems True] .
    show ?thesis
    proof (cases "t < startTime d")
      case True
      have "statuses t (d # ds) = replicate 0 Expired @ replicate 0 Active @ replicate (Suc (length ds)) Upcoming"
        using True rest by (simp add: statuses_def deriveStatus_def)
      then show ?thesis by (metis zero_le_one)
    next
      case False
      have "statuses t (d # ds) = replicate 0 Expired @ replicate 1 Active @ replicate (length ds) Upcoming"
        using False True rest by (simp add: statuses_def deriveStatus_def)
      then show ?thesis by (metis order_refl)
    qed
  next
    case False
    from Cons.prems have "contiguousSlots ds" by (rule contiguous_tail)
    from Cons.IH[OF this] obtain a b c where
      b: "b \<le> 1" and eq: "statuses t ds = replicate a Expired @ replicate b Active @ replicate c Upcoming"
      by blast
    from Cons.prems have "startTime d \<le> endTime d" by (cases ds) (auto simp: slotLength_def)
    with False have "deriveStatus t d = Expired" by (simp add: deriveStatus_def)
    with eq have "statuses t (d # ds) = replicate (Suc a) Expired @ replicate b Active @ replicate c Upcoming"
      by (simp add: statuses_def)
    with b show ?thesis by blast
  qed
qed

text \<open>
  Claim C1. For contiguous, non-overlapping 15-minute slots and every instant \<open>t\<close>, at
  most one event of the ordered list has status \<open>Active\<close>, and the statuses along the
  list are some \<open>Expired\<close>, then at most one \<open>Active\<close>, then some \<open>Upcoming\<close>.
\<close>

theorem C1_status_order:
  assumes "contiguousSlots ds"
  shows "length (filter (\<lambda>st. st = Active) (statuses t ds)) \<le> 1 \<and>
         (\<exists>a b c. b \<le> 1 \<and>
            statuses t ds = replicate a Expired @ replicate b Active @ replicate c Upcoming)"
proof -
  from statuses_shape[OF assms] obtain a b c where
    b: "b \<le> 1" and eq: "statuses t ds = replicate a Expired @ replicate b Active @ replicate c Upcoming"
    by blast
  have "length (filter (\<lambda>st. st = Active) (statuses t ds)) = b"
    unfolding eq by simp
  with b eq show ?thesis by blast
qed

text \<open>
  Three slots of 15 minutes from minute 0, seen at 1000 seconds: the first has expired,
  the second is active, the third is upcoming.
\<close>

theorem C1_witness:
  "contiguousSlots [slot ''a'' 0, slot ''b'' 900000, slot ''c'' 1800000] \<and>
   statuses 1000000 [slot ''a'' 0, slot ''b'' 900000, slot ''c'' 1800000] = [Expired, Active, Upcoming] \<and>
   length (filter (\<lambda>st. st = Active) (statuses 1000000 [slot ''a'' 0, slot ''b'' 900000, slot ''c'' 1800000])) \<le> 1 \<and>
   (\<exists>a b c. b \<le> 1 \<and> statuses 1000000 [slot ''a'' 0, slot ''b'' 900000, slot ''c'' 1800000]
       = replicate a Expired @ replicate b Active @ replicate c Upcoming)"
proof -
  have h: "contiguousSlots [slot ''a'' 0, slot ''b'' 900000, slot ''c'' 1800000]"
    by (simp add: slot_def slotLength_def)
  have v: "statuses 1000000 [slot ''a'' 0, slot ''b'' 900000, slot ''c'' 1800000] = [Expired, Active, Upcoming]"
    by (simp add: statuses_def deriveStatus_def slot_def slotLength_def)
  show ?thesis using h v C1_status_order[OF h, of 1000000] by simp
qed

section \<open>Capture\<close>

lemma map_le_lookup: "m \<subseteq>\<^sub>m m' \<Longrightarrow> m k = Some v \<Longrightarrow> m' k = Some v"
  by (metis domI map_le_def)

text \<open>
  Claim C2. The price-to-beat capture is write-once per slug: a slug that has an entry
  keeps its value through the capture rule, through both renders, and through any
  sequence of inputs, whatever prices the later ticks carry.
\<close>

theorem C2_priceToBeat_write_once:
  assumes "eventPriceToBeat s k = Some v"
  shows "eventPriceToBeat (capturePriceForActiveEvent e s) k = Some v \<and>
         eventPriceToBeat (renderEventsTable e s) k = Some v \<and>
         eventPriceToBeat (renderActiveEvent e s) k = Some v \<and>
         eventPriceToBeat (run s ins) k = Some v"
proof -
  have r: "eventPriceToBeat s \<subseteq>\<^sub>m eventPriceToBeat s" by simp
  show ?thesis
    using map_le_lookup[OF capturePriceForActiveEvent_priceToBeat_le[OF r] assms]
      map_le_lookup[OF renderEventsTable_priceToBeat_le[OF r] assms]
      map_le_lookup[OF renderActiveEvent_priceToBeat_le[OF r] assms]
      map_le_lookup[OF run_priceToBeat_le[OF r] assms]
    by simp
qed

lemmas eval_defs =
  handlePriceUpdate_def capturePriceForActiveEvent_def capturePriceForExpiredEvent_def
  renderActiveEvent_def renderEventsTable_def startCountdown_def updateCountdown_def
  stopCountdown_def expiryCapture_def loadEvents_def updateLastPrices_def loadEventsResolved_def
  initialize_def render_def handleStatusChange_def disconnectClick_def emit_def
  timeLeftOf_def elemAt_def isActive_def maxHistorySize_def initialPlatform_def
  disconnectedStatus_def ev_def tick_def Let_def run_def

text \<open>
  A first tick at 65000 captures the price to beat of the active event; two later ticks
  at other prices and a render leave 65000 in place.
\<close>

theorem C2_witness:
  "eventPriceToBeat (handlePriceUpdate envActive (tick 1 65000) initialPlatform) ''e1'' = Some 65000 \<and>
   eventPriceToBeat
     (run (handlePriceUpdate envActive (tick 1 65000) initialPlatform)
        [(envActive, PriceTick (tick 2 70000)), (envActive, EventsUpdated),
         (envActive, PriceTick (tick 3 71000))]) ''e1'' = Some 65000"
proof -
  have h: "eventPriceToBeat (handlePriceUpdate envActive (tick 1 65000) initialPlatform) ''e1'' = Some 65000"
    by (simp add: eval_defs envActive_def)
  show ?thesis
    using h C2_priceToBeat_write_once[OF h] by simp
qed

text \<open>
  Claim C3. The last-price capture is write-once per slug: a slug that has an entry keeps
  its value through the adjacent-pair rule on ticks, the rule on event-list load, the
  countdown's expiry handler, and any sequence of inputs.
\<close>

theorem C3_lastPrice_write_once:
  assumes "eventLastPrice s k = Some v"
  shows "eventLastPrice (capturePriceForExpiredEvent e s) k = Some v \<and>
         eventLastPrice (updateLastPrices e s) k = Some v \<and>
         eventLastPrice (updateCountdown e s) k = Some v \<and>
         eventLastPrice (run s ins) k = Some v"
proof -
  have r: "eventLastPrice s \<subseteq>\<^sub>m eventLastPrice s" by simp
  show ?thesis
    using map_le_lookup[OF capturePriceForExpiredEvent_lastPrice_le[OF r] assms]
      map_le_lookup[OF updateLastPrices_lastPrice_le[OF r] assms]
      map_le_lookup[OF updateCountdown_lastPrice_le[OF r] assms]
      map_le_lookup[OF run_lastPrice_le[OF r] assms]
    by simp
qed

text \<open>
  After two expiries a first tick at 65000 captures the last price of the third event;
  further ticks, a load and a countdown tick leave 65000 in place.
\<close>

theorem C3_witness:
  "eventLastPrice (handlePriceUpdate envGap (tick 1 65000) initialPlatform) ''e3'' = Some 65000 \<and>
   eventLastPrice
     (run (handlePriceUpdate envGap (tick 1 65000) initialPlatform)
        [(envGap, PriceTick (tick 2 70000)), (envGap, LoadEventsResolved True 10),
         (envGap, CountdownTick 1), (envGap, PriceTick (tick 3 71000))]) ''e3'' = Some 65000"
proof -
  have h: "eventLastPrice (handlePriceUpdate envGap (tick 1 65000) initialPlatform) ''e3'' = Some 65000"
    by (simp add: eval_defs envGap_def)
  show ?thesis
    using h C3_lastPrice_write_once[OF h] by simp
qed

text \<open>
  Claim C6. While no price has been received (\<open>currentPrice\<close> is \<open>None\<close>), neither capture
  rule fires: the capture rules return the state as it is, a render and a countdown tick
  leave both maps alone, and so does every sequence of inputs without a price tick. A
  slug whose capture was skipped has no entry, unlike a slug captured at price 0.
\<close>

theorem C6_no_price_no_capture:
  assumes "currentPrice s = None"
  shows "capturePriceForActiveEvent e s = s \<and>
         capturePriceForExpiredEvent e s = s \<and>
         updateLastPrices e s = s \<and>
         eventPriceToBeat (renderActiveEvent e s) = eventPriceToBeat s \<and>
         eventLastPrice (updateCountdown e s) = eventLastPrice s \<and>
         (list_all (\<lambda>x. \<not> isPriceTick (snd x)) ins \<longrightarrow>
            currentPrice (run s ins) = None \<and>
            eventPriceToBeat (run s ins) = eventPriceToBeat s \<and>
            eventLastPrice (run s ins) = eventLastPrice s)"
  using assms run_no_price[OF assms, of ins] by simp

text \<open>
  From the initial state, a load, a render and a countdown tick capture nothing for the
  active event; a tick with value 0 captures \<open>Some 0\<close>.
\<close>

theorem C6_witness:
  "currentPrice initialPlatform = None \<and>
   list_all (\<lambda>x. \<not> isPriceTick (snd x))
     [(envGap, Initialize True), (envGap, LoadEventsResolved True 10),
      (envGap, EventsUpdated), (envGap, CountdownTick 1)] \<and>
   eventPriceToBeat
     (run initialPlatform [(envGap, Initialize True), (envGap, LoadEventsResolved True 10),
                (envGap, EventsUpdated), (envGap, CountdownTick 1)]) ''e3'' = None \<and>
   eventLastPrice
     (run initialPlatform [(envGap, Initialize True), (envGap, LoadEventsResolved True 10),
                (envGap, EventsUpdated), (envGap, CountdownTick 1)]) ''e3'' = None \<and>
   eventPriceToBeat (handlePriceUpdate envGap (tick 1 0) initialPlatform) ''e3'' = Some 0"
proof -
  have h: "currentPrice initialPlatform = None" by (simp add: initialPlatform_def)
  have n: "list_all (\<lambda>x. \<not> isPriceTick (snd x))
     [(envGap, Initialize True), (envGap, LoadEventsResolved True 10),
      (envGap, EventsUpdated), (envGap, CountdownTick 1)]"
    by (simp add: isPriceTick_def)
  have z: "eventPriceToBeat (handlePriceUpdate envGap (tick 1 0) initialPlatform) ''e3'' = Some 0"
    by (simp add: eval_defs envGap_def)
  have m: "eventPriceToBeat initialPlatform ''e3'' = None" "eventLastPrice initialPlatform ''e3'' = None"
    by (simp_all add: initialPlatform_def)
  show ?thesis
    using h n z m C6_no_price_no_capture[OF h, of envGap "[(envGap, Initialize True), (envGap, LoadEventsResolved True 10),
                (envGap, EventsUpdated), (envGap, CountdownTick 1)]"]
    by simp
qed

text \<open>
  Claim C9. In every reachable state the live interval timers are exactly the one whose
  handle the platform holds, so at most one countdown timer is live; starting the
  countdown in such a state leaves no timer live except the newly installed one.
\<close>

theorem C9_single_countdown_timer:
  "timersOk (run initialPlatform ins) \<and>
   card (liveIntervals (run initialPlatform ins)) \<le> 1 \<and>
   liveIntervals (startCountdown e (run initialPlatform ins))
     \<subseteq> {nextIntervalId (run initialPlatform ins)} \<and>
   card (liveIntervals (startCountdown e (run initialPlatform ins))) \<le> 1"
proof -
  have ok: "timersOk (run initialPlatform ins)"
    by (rule run_timersOk[OF initial_timersOk])
  show ?thesis
    using ok timersOk_card[OF ok] startCountdown_live[OF ok]
      timersOk_card[OF startCountdown_timersOk[OF ok]]
    by simp
qed

text \<open>
  The first tick starts timer 1; a later render restarts the countdown, and timer 2 is
  the only one live.
\<close>

theorem C9_witness:
  "liveIntervals ready = {1} \<and>
   liveIntervals (run ready [(envActive, EventsUpdated)]) = {2} \<and>
   countdownInterval (run ready [(envActive, EventsUpdated)]) = Some 2 \<and>
   card (liveIntervals (run initialPlatform
     [(envActive, Initialize True), (envActive, PriceTick (tick 1 65000)),
      (envActive, EventsUpdated)])) \<le> 1"
proof -
  have "liveIntervals ready = {1}"
    by (simp add: eval_defs ready_def envActive_def formatCountdown_def)
  moreover have "liveIntervals (run ready [(envActive, EventsUpdated)]) = {2}"
    "countdownInterval (run ready [(envActive, EventsUpdated)]) = Some 2"
    by (simp_all add: eval_defs ready_def envActive_def formatCountdown_def)
  ultimately show ?thesis
    using C9_single_countdown_timer[of "[(envActive, Initialize True),
      (envActive, PriceTick (tick 1 65000)), (envActive, EventsUpdated)]" envActive]
    by simp
qed

text \<open>
  Claim C10. In every reachable state with a non-empty price history the current price
  is the value of the last history entry. A price tick sets the current price and the
  last history entry from the same tick; every other input (disconnect among them)
  leaves both fields as they are.
\<close>

theorem C10_history_matches_price:
  "historyOk (run initialPlatform ins) \<and>
   currentPrice (handlePriceUpdate e u s) = Some (p_value (payload u)) \<and>
   last (priceHistory (handlePriceUpdate e u s)) = (p_timestamp (payload u), p_value (payload u)) \<and>
   (\<not> isPriceTick i \<longrightarrow>
      currentPrice (step s (e, i)) = currentPrice s \<and>
      priceHistory (step s (e, i)) = priceHistory s)"
proof -
  have "historyOk initialPlatform" by (simp add: historyOk_def initialPlatform_def)
  then have "historyOk (run initialPlatform ins)" by (rule run_historyOk)
  then show ?thesis
    using handlePriceUpdate_price handlePriceUpdate_last step_price_frame by blast
qed

text \<open>
  Two ticks and a disconnect: the history holds both ticks and the current price is the
  value of the second.
\<close>

theorem C10_witness:
  "priceHistory (run initialPlatform
      [(envActive, PriceTick (tick 1 65000)), (envActive, PriceTick (tick 2 70000)),
       (envActive, DisconnectClick)]) = [(1, 65000), (2, 70000)] \<and>
   currentPrice (run initialPlatform
      [(envActive, PriceTick (tick 1 65000)), (envActive, PriceTick (tick 2 70000)),
       (envActive, DisconnectClick)]) = Some 70000 \<and>
   historyOk (run initialPlatform
      [(envActive, PriceTick (tick 1 65000)), (envActive, PriceTick (tick 2 70000)),
       (envActive, DisconnectClick)]) \<and>
   \<not> isPriceTick DisconnectClick \<and>
   currentPrice (step initialPlatform (envActive, DisconnectClick)) = currentPrice initialPlatform"
proof -
  have h: "priceHistory (run initialPlatform
      [(envActive, PriceTick (tick 1 65000)), (envActive, PriceTick (tick 2 70000)),
       (envActive, DisconnectClick)]) = [(1, 65000), (2, 70000)]"
    by (simp add: eval_defs envActive_def)
  have n: "\<not> isPriceTick DisconnectClick" by (simp add: isPriceTick_def)
  show ?thesis
    using h n C10_history_matches_price[of "[(envActive, PriceTick (tick 1 65000)), (envActive, PriceTick (tick 2 70000)),
       (envActive, DisconnectClick)]" envActive "tick 2 70000" initialPlatform DisconnectClick]
    by (simp add: historyOk_def)
qed

section \<open>The multi-expiry gap\<close>

subsection \<open>Where captured values come from\<close>

lemma capturedFrom_refl [simp]: "capturedFrom p m m"
  by (simp add: capturedFrom_def)

lemma capturedFrom_upd: "capturedFrom p m m' \<Longrightarrow> capturedFrom p m (m'(k \<mapsto> p))"
  by (simp add: capturedFrom_def)

lemma expiryCapture_from:
  "capturedFrom p m (eventLastPrice s) \<Longrightarrow> currentPrice s = Some p \<Longrightarrow>
   capturedFrom p m (eventLastPrice (expiryCapture e s))"
  by (simp add: expiryCapture_def Let_def capturedFrom_upd split: option.split)

lemma updateCountdown_from:
  "capturedFrom p m (eventLastPrice s) \<Longrightarrow> currentPrice s = Some p \<Longrightarrow>
   capturedFrom p m (eventLastPrice (updateCountdown e s))"
  by (simp add: updateCountdown_def Let_def expiryCapture_from split: option.split)

lemma startCountdown_from:
  "capturedFrom p m (eventLastPrice s) \<Longrightarrow> currentPrice s = Some p \<Longrightarrow>
   capturedFrom p m (eventLastPrice (startCountdown e s))"
  by (simp add: startCountdown_def Let_def updateCountdown_from)

lemma renderActiveEvent_from:
  "capturedFrom p m (eventLastPrice s) \<Longrightarrow> currentPrice s = Some p \<Longrightarrow>
   capturedFrom p m (eventLastPrice (renderActiveEvent e s))"
  by (simp add: renderActiveEvent_def Let_def startCountdown_from split: option.split)

lemma capturePriceForActiveEvent_from:
  "capturedFrom p m (eventLastPrice s) \<Longrightarrow> currentPrice s = Some p \<Longrightarrow>
   capturedFrom p m (eventLastPrice (capturePriceForActiveEvent e s))"
  by (simp add: capturePriceForActiveEvent_def renderActiveEvent_from split: option.split)

lemma renderEventsTable_from:
  "capturedFrom p m (eventLastPrice s) \<Longrightarrow> currentPrice s = Some p \<Longrightarrow>
   capturedFrom p m (eventLastPrice (renderEventsTable e s))"
  by (simp add: renderEventsTable_def Let_def renderActiveEvent_from
      capturePriceForActiveEvent_from)

lemma expiredLoop_from:
  "capturedFrom p m (eventLastPrice s) \<Longrightarrow> currentPrice s = Some p \<Longrightarrow>
   capturedFrom p m (eventLastPrice (expiredLoop e p evs s))"
  by (induction e p evs s rule: expiredLoop.induct)
     (simp_all add: renderEventsTable_from capturedFrom_upd)

text \<open>After the loop, every event that follows an expired one has a last price.\<close>

lemma expiredLoop_covers:
  "Suc i < length evs \<Longrightarrow> status (evs ! i) = Expired \<Longrightarrow>
   eventLastPrice (expiredLoop e p evs s) (slug (evs ! Suc i)) \<noteq> None"
proof (induction e p evs s arbitrary: i rule: expiredLoop.induct)
  case (1 e p previousEvent event rest s)
  let ?s1 = "if status previousEvent = Expired \<and> eventLastPrice s (slug event) = None
        then renderEventsTable e
               (emit (CapturedLastPrice (slug event))
                  (s\<lparr>eventLastPrice := (eventLastPrice s)(slug event \<mapsto> p)\<rparr>))
        else s"
  show ?case
  proof (cases i)
    case 0
    with "1.prems" have ex: "status previousEvent = Expired" by simp
    have "eventLastPrice ?s1 (slug event) \<noteq> None"
    proof (cases "eventLastPrice s (slug event)")
      case None
      let ?t = "emit (CapturedLastPrice (slug event))
                  (s\<lparr>eventLastPrice := (eventLastPrice s)(slug event \<mapsto> p)\<rparr>)"
      have "eventLastPrice ?t \<subseteq>\<^sub>m eventLastPrice (renderEventsTable e ?t)"
        by (rule renderEventsTable_lastPrice_le) simp
      moreover have "eventLastPrice ?t (slug event) = Some p" by simp
      ultimately have "eventLastPrice (renderEventsTable e ?t) (slug event) = Some p"
        by (rule map_le_lookup)
      with None ex show ?thesis by simp
    next
      case (Some a)
      then show ?thesis by simp
    qed
    then obtain v where v: "eventLastPrice ?s1 (slug event) = Some v" by blast
    have "eventLastPrice ?s1 \<subseteq>\<^sub>m eventLastPrice (expiredLoop e p (event # rest) ?s1)"
      by (rule expiredLoop_lastPrice_le) simp
    from map_le_lookup[OF this v] 0 show ?thesis by simp
  next
    case (Suc j)
    with "1.prems" have "Suc j < length (event # rest)" "status ((event # rest) ! j) = Expired"
      by simp_all
    from "1.IH"[OF this] Suc show ?thesis by simp
  qed
qed simp_all

lemma handlePriceUpdate_captures_lastPrice:
  assumes "Suc i < length (events e)" "status (events e ! i) = Expired"
    and "eventLastPrice s (slug (events e ! Suc i)) = None"
  shows "eventLastPrice (handlePriceUpdate e u s) (slug (events e ! Suc i)) = Some (p_value (payload u))"
proof -
  let ?p = "p_value (payload u)"
  let ?s2 = "s\<lparr>currentPrice := Some ?p,
               priceHistory := priceHistory s @ [(p_timestamp (payload u), ?p)]\<rparr>"
  let ?s3 = "if length (priceHistory ?s2) > maxHistorySize
             then ?s2\<lparr>priceHistory := tl (priceHistory ?s2)\<rparr> else ?s2"
  let ?s4 = "capturePriceForActiveEvent e ?s3"
  have eq: "handlePriceUpdate e u s = expiredLoop e ?p (events e) ?s4"
    by (simp add: handlePriceUpdate_def Let_def capturePriceForExpiredEvent_def)
  have p3: "currentPrice ?s3 = Some ?p" and m3: "eventLastPrice ?s3 = eventLastPrice s" by simp_all
  have "capturedFrom ?p (eventLastPrice s) (eventLastPrice ?s3)" using m3 by simp
  then have "capturedFrom ?p (eventLastPrice s) (eventLastPrice ?s4)"
    using p3 by (rule capturePriceForActiveEvent_from)
  moreover have "currentPrice ?s4 = Some ?p" using p3 by simp
  ultimately have src: "capturedFrom ?p (eventLastPrice s) (eventLastPrice (handlePriceUpdate e u s))"
    unfolding eq by (rule expiredLoop_from)
  have "eventLastPrice (handlePriceUpdate e u s) (slug (events e ! Suc i)) \<noteq> None"
    unfolding eq using assms(1,2) by (rule expiredLoop_covers)
  then obtain v where v: "eventLastPrice (handlePriceUpdate e u s) (slug (events e ! Suc i)) = Some v"
    by blast
  from src v have "eventLastPrice s (slug (events e ! Suc i)) = Some v \<or> v = ?p"
    unfolding capturedFrom_def by blast
  with assms(3) have "v = ?p" by simp
  with v show ?thesis by simp
qed

lemma handlePriceUpdate_captures_priceToBeat:
  assumes "find isActive (events e) = Some a" "eventPriceToBeat s (slug a) = None"
  shows "eventPriceToBeat (handlePriceUpdate e u s) (slug a) = Some (p_value (payload u))"
proof -
  let ?p = "p_value (payload u)"
  let ?s2 = "s\<lparr>currentPrice := Some ?p,
               priceHistory := priceHistory s @ [(p_timestamp (payload u), ?p)]\<rparr>"
  let ?s3 = "if length (priceHistory ?s2) > maxHistorySize
             then ?s2\<lparr>priceHistory := tl (priceHistory ?s2)\<rparr> else ?s2"
  let ?t = "emit (CapturedPriceToBeat (slug a)) (?s3\<lparr>eventPriceToBeat := (eventPriceToBeat ?s3)(slug a \<mapsto> ?p)\<rparr>)"
  have eq: "handlePriceUpdate e u s = capturePriceForExpiredEvent e (renderActiveEvent e ?t)"
    using assms by (simp add: handlePriceUpdate_def Let_def capturePriceForActiveEvent_def)
  have "eventPriceToBeat ?t \<subseteq>\<^sub>m eventPriceToBeat (renderActiveEvent e ?t)"
    by (rule renderActiveEvent_priceToBeat_le) simp
  then have "eventPriceToBeat ?t \<subseteq>\<^sub>m eventPriceToBeat (handlePriceUpdate e u s)"
    unfolding eq by (rule capturePriceForExpiredEvent_priceToBeat_le)
  moreover have "eventPriceToBeat ?t (slug a) = Some ?p" by simp
  ultimately show ?thesis by (rule map_le_lookup)
qed

text \<open>
  Claim C4. With the events \<open>E1\<close> (expired), \<open>E2\<close> (expired), \<open>E3\<close> (active) and empty
  capture maps, handling one price tick with value \<open>V\<close> captures \<open>V\<close> as the last price
  of \<open>E2\<close> and of \<open>E3\<close> and as the price to beat of \<open>E3\<close>: the adjacent-pair rule
  looks at every pair, not only at the one next to the active event.
\<close>

theorem C4_multi_expiry_gap:
  assumes "events e = [E1, E2, E3]"
    and "status E1 = Expired" and "status E2 = Expired" and "status E3 = Active"
    and "eventPriceToBeat s = Map.empty" and "eventLastPrice s = Map.empty"
  shows "eventLastPrice (handlePriceUpdate e u s) (slug E2) = Some (p_value (payload u)) \<and>
         eventLastPrice (handlePriceUpdate e u s) (slug E3) = Some (p_value (payload u)) \<and>
         eventPriceToBeat (handlePriceUpdate e u s) (slug E3) = Some (p_value (payload u))"
proof -
  have a: "find isActive (events e) = Some E3"
    using assms(1-4) by (simp add: isActive_def)
  show ?thesis
    using handlePriceUpdate_captures_lastPrice[of 0 e s u]
      handlePriceUpdate_captures_lastPrice[of 1 e s u]
      handlePriceUpdate_captures_priceToBeat[OF a, of s u] assms
    by simp
qed

text \<open>
  Two expired slots and an active one, no capture so far, one tick at 65000. The first
  event, which follows no expired event, gets no last price.
\<close>

theorem C4_witness:
  "events envGap = [ev ''e1'' Expired 900000, ev ''e2'' Expired 1800000, ev ''e3'' Active 2700000] \<and>
   status (ev ''e1'' Expired 900000) = Expired \<and> status (ev ''e2'' Expired 1800000) = Expired \<and>
   status (ev ''e3'' Active 2700000) = Active \<and>
   eventLastPrice (handlePriceUpdate envGap (tick 1 65000) (initialize True initialPlatform)) ''e2'' = Some 65000 \<and>
   eventLastPrice (handlePriceUpdate envGap (tick 1 65000) (initialize True initialPlatform)) ''e3'' = Some 65000 \<and>
   eventPriceToBeat (handlePriceUpdate envGap (tick 1 65000) (initialize True initialPlatform)) ''e3'' = Some 65000 \<and>
   eventLastPrice (handlePriceUpdate envGap (tick 1 65000) (initialize True initialPlatform)) ''e1'' = None"
proof -
  have ev: "events envGap = [ev ''e1'' Expired 900000, ev ''e2'' Expired 1800000, ev ''e3'' Active 2700000]"
    by (simp add: envGap_def)
  have st: "status (ev ''e1'' Expired 900000) = Expired" "status (ev ''e2'' Expired 1800000) = Expired"
    "status (ev ''e3'' Active 2700000) = Active"
    by (simp_all add: ev_def)
  have m: "eventPriceToBeat (initialize True initialPlatform) = Map.empty"
    "eventLastPrice (initialize True initialPlatform) = Map.empty"
    by (simp_all add: initialize_def render_def loadEvents_def emit_def initialPlatform_def)
  have n: "eventLastPrice (handlePriceUpdate envGap (tick 1 65000) (initialize True initialPlatform)) ''e1'' = None"
    by (simp add: eval_defs envGap_def)
  show ?thesis
    using ev st n C4_multi_expiry_gap[OF ev st m, of "tick 1 65000"]
    by (simp add: ev_def tick_def)
qed

section \<open>Disconnect\<close>

subsection \<open>The connection status is independent of everything else\<close>

lemma status_outward:
  "s\<lparr>currentStatus := c, currentPrice := p\<rparr> = s\<lparr>currentPrice := p, currentStatus := c\<rparr>"
  "s\<lparr>currentStatus := c, priceHistory := h\<rparr> = s\<lparr>priceHistory := h, currentStatus := c\<rparr>"
  "s\<lparr>currentStatus := c, countdownInterval := ci\<rparr> = s\<lparr>countdownInterval := ci, currentStatus := c\<rparr>"
  "s\<lparr>currentStatus := c, eventPriceToBeat := m\<rparr> = s\<lparr>eventPriceToBeat := m, currentStatus := c\<rparr>"
  "s\<lparr>currentStatus := c, eventLastPrice := m\<rparr> = s\<lparr>eventLastPrice := m, currentStatus := c\<rparr>"
  "s\<lparr>currentStatus := c, liveIntervals := l\<rparr> = s\<lparr>liveIntervals := l, currentStatus := c\<rparr>"
  "s\<lparr>currentStatus := c, nextIntervalId := n\<rparr> = s\<lparr>nextIntervalId := n, currentStatus := c\<rparr>"
  "s\<lparr>currentStatus := c, eventCountdown := d\<rparr> = s\<lparr>eventCountdown := d, currentStatus := c\<rparr>"
  "s\<lparr>currentStatus := c, trace := tr\<rparr> = s\<lparr>trace := tr, currentStatus := c\<rparr>"
  by simp_all

lemma emit_status: "emit x (s\<lparr>currentStatus := c\<rparr>) = (emit x s)\<lparr>currentStatus := c\<rparr>"
  by (simp add: emit_def)

lemma stopCountdown_status:
  "stopCountdown (s\<lparr>currentStatus := c\<rparr>) = (stopCountdown s)\<lparr>currentStatus := c\<rparr>"
  by (simp add: stopCountdown_def split: option.split)

lemma loadEvents_status:
  "loadEvents (s\<lparr>currentStatus := c\<rparr>) = (loadEvents s)\<lparr>currentStatus := c\<rparr>"
  by (simp add: loadEvents_def emit_status)

lemma expiryCapture_status:
  "expiryCapture e (s\<lparr>currentStatus := c\<rparr>) = (expiryCapture e s)\<lparr>currentStatus := c\<rparr>"
  by (simp add: expiryCapture_def Let_def emit_def split: option.split)

lemma updateCountdown_status:
  "updateCountdown e (s\<lparr>currentStatus := c\<rparr>) = (updateCountdown e s)\<lparr>currentStatus := c\<rparr>"
  by (simp add: updateCountdown_def Let_def status_outward stopCountdown_status loadEvents_status
      expiryCapture_status split: option.split)

lemma startCountdown_status:
  "startCountdown e (s\<lparr>currentStatus := c\<rparr>) = (startCountdown e s)\<lparr>currentStatus := c\<rparr>"
  by (simp add: startCountdown_def Let_def stopCountdown_status status_outward
      updateCountdown_status)

lemma renderActiveEvent_status:
  "renderActiveEvent e (s\<lparr>currentStatus := c\<rparr>) = (renderActiveEvent e s)\<lparr>currentStatus := c\<rparr>"
  by (simp add: renderActiveEvent_def Let_def emit_def status_outward stopCountdown_status
      startCountdown_status split: option.split)

lemma capturePriceForActiveEvent_status:
  "capturePriceForActiveEvent e (s\<lparr>currentStatus := c\<rparr>)
     = (capturePriceForActiveEvent e s)\<lparr>currentStatus := c\<rparr>"
  by (simp add: capturePriceForActiveEvent_def emit_def status_outward renderActiveEvent_status
      split: option.split)

lemma renderEventsTable_status:
  "renderEventsTable e (s\<lparr>currentStatus := c\<rparr>) = (renderEventsTable e s)\<lparr>currentStatus := c\<rparr>"
  by (simp add: renderEventsTable_def Let_def emit_def status_outward
      capturePriceForActiveEvent_status renderActiveEvent_status)

lemma expiredLoop_status:
  "expiredLoop e p evs (s\<lparr>currentStatus := c\<rparr>) = (expiredLoop e p evs s)\<lparr>currentStatus := c\<rparr>"
proof (induction e p evs s rule: expiredLoop.induct)
  case (1 e p previousEvent event rest s)
  let ?s1 = "if status previousEvent = Expired \<and> eventLastPrice s (slug event) = None
        then renderEventsTable e
               (emit (CapturedLastPrice (slug event))
                  (s\<lparr>eventLastPrice := (eventLastPrice s)(slug event \<mapsto> p)\<rparr>))
        else s"
  have "expiredLoop e p (previousEvent # event # rest) (s\<lparr>currentStatus := c\<rparr>)
      = expiredLoop e p (event # rest) (?s1\<lparr>currentStatus := c\<rparr>)"
    by (simp add: emit_def status_outward renderEventsTable_status)
  also have "\<dots> = (expiredLoop e p (event # rest) ?s1)\<lparr>currentStatus := c\<rparr>"
    by (rule "1.IH")
  also have "\<dots> = (expiredLoop e p (previousEvent # event # rest) s)\<lparr>currentStatus := c\<rparr>"
    by simp
  finally show ?case .
qed simp_all

lemma capturePriceForExpiredEvent_status:
  "capturePriceForExpiredEvent e (s\<lparr>currentStatus := c\<rparr>)
     = (capturePriceForExpiredEvent e s)\<lparr>currentStatus := c\<rparr>"
  by (simp add: capturePriceForExpiredEvent_def expiredLoop_status split: option.split)

lemma handlePriceUpdate_status:
  "handlePriceUpdate e u (s\<lparr>currentStatus := c\<rparr>) = (handlePriceUpdate e u s)\<lparr>currentStatus := c\<rparr>"
  by (simp add: handlePriceUpdate_def Let_def status_outward capturePriceForActiveEvent_status
      capturePriceForExpiredEvent_status)

text \<open>
  Claim C8. The disconnect handler sets the connection status to disconnected, with no
  source, no last update and no error, and changes nothing else: the current price, the
  price history and both capture maps stay as they are (the event list is the event
  manager's, which the handler does not call). A tick that arrives after the disconnect
  is handled as it would have been without it.
\<close>

theorem C8_disconnect_frame:
  "currentStatus (disconnectClick s)
     = \<lparr>connected = False, source = None, lastUpdate = None, error = None\<rparr> \<and>
   currentPrice (disconnectClick s) = currentPrice s \<and>
   priceHistory (disconnectClick s) = priceHistory s \<and>
   eventPriceToBeat (disconnectClick s) = eventPriceToBeat s \<and>
   eventLastPrice (disconnectClick s) = eventLastPrice s \<and>
   disconnectClick s = s\<lparr>currentStatus := currentStatus (disconnectClick s)\<rparr> \<and>
   handlePriceUpdate e u (disconnectClick s) = disconnectClick (handlePriceUpdate e u s)"
  by (simp add: disconnectClick_def disconnectedStatus_def handlePriceUpdate_status)

section \<open>Captures and renders\<close>

subsection \<open>Traces\<close>




lemma stopCountdown_trace [simp]: "trace (stopCountdown s) = trace s"
  by (simp add: stopCountdown_def split: option.split)




















text \<open>
  Claim C5. The remaining time is \<open>max 0 ((endDate - now) div 1000)\<close>, and with no time
  left the countdown shows \<open>00:00:00\<close>. The expiry handling is not done exactly once per
  expiry: the timer fires 900 ms before the end of \<open>e1\<close>, finds 0 seconds left, stops
  the timer and asks for a refresh; the refresh settles 300 ms later while \<open>e1\<close> is
  still active, the render restarts the countdown, which finds 0 seconds left again and
  asks for a second refresh. A single tick in the last half second of \<open>e3\<close>, after two
  expiries, renders three times and asks for three refreshes.
\<close>

theorem C5_refresh_repeats:
  "timeLeftOf envEnd (ev ''e1'' Active 1000000) = 0 \<and>
   eventCountdown (step ready (envEnd, CountdownTick 1)) = Some ''00:00:00'' \<and>
   timeLeftOf envLast (ev ''e1'' Active 1000000) = 0 \<and>
   eventCountdown (step ready (envLast, CountdownTick 1)) = Some ''00:00:00'' \<and>
   newEffects ready (step ready (envLast, CountdownTick 1))
     = [CapturedLastPriceOnExpiry ''e2'', RefreshRequested] \<and>
   liveIntervals (step ready (envLast, CountdownTick 1)) = {} \<and>
   newEffects ready
     (run ready [(envLast, CountdownTick 1), (envLast2, LoadEventsResolved True 10)])
     = [CapturedLastPriceOnExpiry ''e2'', RefreshRequested,
        RenderEventsTable, RenderActiveEvent, RefreshRequested] \<and>
   count_list (newEffects ready
     (run ready [(envLast, CountdownTick 1), (envLast2, LoadEventsResolved True 10)]))
     RefreshRequested = 2 \<and>
   count_list (newEffects (initialize True initialPlatform)
     (step (initialize True initialPlatform) (envGapLast, PriceTick (tick 1 65000))))
     RefreshRequested = 3"
  by (simp add: eval_defs ready_def envActive_def envLast_def envLast2_def envEnd_def
      envGapLast_def newEffects_def formatCountdown_def)

end
